theory Spec2Isabelle
  imports Main
begin

section \<open>The Datadog webhook integration resource\<close>

text \<open>
  A shallow embedding of \<^verbatim>\<open>datadog/resource_datadog_integration_webhook.go\<close>.
  Go strings are byte sequences and are modelled as \<^typ>\<open>string\<close>; a \<^verbatim>\<open>*string\<close> is a
  \<^typ>\<open>string option\<close> (\<^term>\<open>None\<close> is the nil pointer); a Go \<^verbatim>\<open>error\<close> result is the
  left summand of a sum type.
\<close>

subsection \<open>Library functions of Go used by the resource\<close>

text \<open>
  \<^verbatim>\<open>strings.Split(s, sep)\<close> for a separator of one byte: the pieces of \<open>s\<close> between the
  occurrences of the separator, in order; a string without the separator (the empty
  string too) gives a single piece.
\<close>

fun strings_Split :: "string \<Rightarrow> char \<Rightarrow> string list" where
  "strings_Split [] sep = [[]]"
| "strings_Split (x # xs) sep =
     (if x = sep then [] # strings_Split xs sep
      else (case strings_Split xs sep of
              [] \<Rightarrow> [[x]]
            | p # ps \<Rightarrow> (x # p) # ps))"

text \<open>\<^verbatim>\<open>strings.Join(elems, sep)\<close>.\<close>

fun strings_Join :: "string list \<Rightarrow> string \<Rightarrow> string" where
  "strings_Join [] sep = []"
| "strings_Join [x] sep = x"
| "strings_Join (x # y # ys) sep = x @ sep @ strings_Join (y # ys) sep"

text \<open>\<^verbatim>\<open>strings.Contains(s, substr)\<close> for a substring of one byte.\<close>

definition strings_Contains :: "string \<Rightarrow> char \<Rightarrow> bool" where
  "strings_Contains s c = (c \<in> set s)"

text \<open>
  \<^verbatim>\<open>strings.TrimLeft(s, cutset)\<close> removes every leading byte that is in the cutset;
  \<^verbatim>\<open>strings.Trim(s, cutset)\<close> does so at both ends.
\<close>

definition strings_TrimLeft :: "string \<Rightarrow> string \<Rightarrow> string" where
  "strings_TrimLeft s cutset = dropWhile (\<lambda>c. c \<in> set cutset) s"

definition strings_Trim :: "string \<Rightarrow> string \<Rightarrow> string" where
  "strings_Trim s cutset =
     rev (dropWhile (\<lambda>c. c \<in> set cutset) (rev (dropWhile (\<lambda>c. c \<in> set cutset) s)))"

text \<open>
  Errors. \<open>ClientError msg\<close> is an error returned by the Datadog client whose
  \<^verbatim>\<open>Error()\<close> text is \<open>msg\<close>; \<open>Errorf msg\<close> is the result of \<^verbatim>\<open>fmt.Errorf\<close> with the
  formatted text; \<open>ParseBoolError s\<close> is the syntax error of \<^verbatim>\<open>strconv.ParseBool(s)\<close>;
  \<open>IndexPanic\<close> is an index out of range.
\<close>

datatype error =
    ClientError string
  | Errorf string
  | ParseBoolError string
  | IndexPanic

text \<open>\<^verbatim>\<open>strconv.FormatBool\<close> and \<^verbatim>\<open>strconv.ParseBool\<close>.\<close>

definition strconv_FormatBool :: "bool \<Rightarrow> string" where
  "strconv_FormatBool b = (if b then ''true'' else ''false'')"

definition strconv_ParseBool :: "string \<Rightarrow> error + bool" where
  "strconv_ParseBool str =
     (if str \<in> set [''1'', ''t'', ''T'', ''TRUE'', ''true'', ''True''] then Inr True
      else if str \<in> set [''0'', ''f'', ''F'', ''FALSE'', ''false'', ''False''] then Inr False
      else Inl (ParseBoolError str))"

subsection \<open>Data\<close>

text \<open>
  \<^verbatim>\<open>datadog.Webhook\<close>, the wire record of the client library: every field is a
  \<^verbatim>\<open>*string\<close>.
\<close>

record Webhook =
  Name :: "string option"
  URL :: "string option"
  UseCustomPayload :: "string option"
  CustomPayload :: "string option"
  EncodeAsForm :: "string option"
  Headers :: "string option"

text \<open>\<^verbatim>\<open>datadog.IntegrationWebhookRequest\<close>.\<close>

record IntegrationWebhookRequest =
  Webhooks :: "Webhook list"

text \<open>
  One element of the \<^verbatim>\<open>hooks\<close> list, a \<^verbatim>\<open>map[string]interface{}\<close> whose keys are those of
  \<^verbatim>\<open>getWebhookSchema\<close>. The schema makes \<^verbatim>\<open>name\<close> and \<^verbatim>\<open>url\<close> required strings, so they
  are plain fields; each optional key is a field of option type, \<^term>\<open>None\<close> when the
  key is absent from the map.

  The record is used at two instances. What \<^verbatim>\<open>buildDatadogWebhook\<close> reads has strings
  under \<^verbatim>\<open>name\<close> and \<^verbatim>\<open>url\<close> (\<open>'n\<close> is \<^typ>\<open>string\<close>) and a \<^verbatim>\<open>map[string]string\<close> under
  \<^verbatim>\<open>headers\<close>, given as the list of its entries in the order in which the \<^verbatim>\<open>range\<close>
  loop visits them (\<open>'h\<close> is \<^typ>\<open>(string \<times> string) list\<close>, with distinct keys): Go
  leaves that order open, so the theorems below hold for every order. What
  \<^verbatim>\<open>buildTerraformWebhooks\<close> writes has the wire record's pointers under \<^verbatim>\<open>name\<close> and
  \<^verbatim>\<open>url\<close> (\<open>'n\<close> is \<^typ>\<open>string option\<close>) and the decoded map under \<^verbatim>\<open>headers\<close>
  (\<open>'h\<close> is \<^typ>\<open>string \<rightharpoonup> string\<close>).
\<close>

record ('n, 'h) TerraformWebhook =
  name :: 'n
  url :: 'n
  use_custom_payload :: "bool option"
  custom_payload :: "string option"
  encode_as_form :: "bool option"
  headers :: "'h option"

type_synonym ConfigWebhook = "(string, (string \<times> string) list) TerraformWebhook"
type_synonym StateWebhook = "(string option, string \<rightharpoonup> string) TerraformWebhook"

subsection \<open>Outbound translation\<close>

text \<open>\<^verbatim>\<open>buildDatadogHeader\<close>: one line \<^verbatim>\<open>"%s: %s"\<close> per entry, joined by newlines.\<close>

definition buildDatadogHeader :: "(string \<times> string) list \<Rightarrow> string" where
  "buildDatadogHeader headerEntries =
     strings_Join (map (\<lambda>(key, value). key @ '': '' @ value) headerEntries) [CHR 0x0A]"

definition buildDatadogWebhook :: "ConfigWebhook \<Rightarrow> Webhook" where
  "buildDatadogWebhook terraformWebhook =
     \<lparr> Name = Some (name terraformWebhook),
       URL = Some (url terraformWebhook),
       UseCustomPayload =
         (case use_custom_payload terraformWebhook of
            Some attr \<Rightarrow> Some (strconv_FormatBool attr) | None \<Rightarrow> None),
       CustomPayload =
         (case custom_payload terraformWebhook of
            Some attr \<Rightarrow> Some attr | None \<Rightarrow> None),
       EncodeAsForm =
         (case encode_as_form terraformWebhook of
            Some attr \<Rightarrow> Some (strconv_FormatBool attr) | None \<Rightarrow> None),
       Headers =
         (case headers terraformWebhook of
            Some attr \<Rightarrow> Some (buildDatadogHeader attr) | None \<Rightarrow> None) \<rparr>"

subsection \<open>Inbound translation\<close>

text \<open>
  The loop of \<^verbatim>\<open>buildTerraformHeader\<close> over the lines, with the map built so far: a
  line with a colon is split at its colons, the first piece is the key and the other
  pieces, joined by the empty string and trimmed of leading spaces, are the value; a
  line without a colon ends the loop with an error that quotes the line.
\<close>

fun buildTerraformHeader_loop ::
  "string list \<Rightarrow> (string \<rightharpoonup> string) \<Rightarrow> error + (string \<rightharpoonup> string)" where
  "buildTerraformHeader_loop [] terraformHeaders = Inr terraformHeaders"
| "buildTerraformHeader_loop (headerStr # rest) terraformHeaders =
     (if strings_Contains headerStr (CHR '':'') then
        (case strings_Split headerStr (CHR '':'') of
           [] \<Rightarrow> Inl IndexPanic
         | k # vs \<Rightarrow>
             buildTerraformHeader_loop rest
               (terraformHeaders(k \<mapsto> strings_TrimLeft (strings_Join vs []) '' '')))
      else
        Inl (Errorf (''header not correctly formatted, expected ':' in '' @ [CHR 0x27]
                     @ headerStr @ [CHR 0x27])))"

definition buildTerraformHeader :: "string \<Rightarrow> error + (string \<rightharpoonup> string)" where
  "buildTerraformHeader datadogHeader =
     (if strings_Trim datadogHeader [CHR '' '', CHR 0x09, CHR 0x0A] \<noteq> [] then
        buildTerraformHeader_loop (strings_Split datadogHeader (CHR 0x0A)) Map.empty
      else Inr Map.empty)"

text \<open>
  The body of the loop of \<^verbatim>\<open>buildTerraformWebhooks\<close> for one wire record: the checks
  are made in the order of the source, and the first that fails is the result.
\<close>

definition buildTerraformWebhooks_body :: "Webhook \<Rightarrow> error + StateWebhook" where
  "buildTerraformWebhooks_body datadogWebhook =
     (case (case UseCustomPayload datadogWebhook of
              None \<Rightarrow> Inr None
            | Some s \<Rightarrow> map_sum id Some (strconv_ParseBool s)) of
        Inl err \<Rightarrow> Inl err
      | Inr ucp \<Rightarrow>
     (case (case EncodeAsForm datadogWebhook of
              None \<Rightarrow> Inr None
            | Some s \<Rightarrow> map_sum id Some (strconv_ParseBool s)) of
        Inl err \<Rightarrow> Inl err
      | Inr eaf \<Rightarrow>
     (case (case Headers datadogWebhook of
              None \<Rightarrow> Inr None
            | Some s \<Rightarrow> map_sum id Some (buildTerraformHeader s)) of
        Inl err \<Rightarrow> Inl err
      | Inr hs \<Rightarrow>
          Inr \<lparr> name = Name datadogWebhook,
                url = URL datadogWebhook,
                use_custom_payload = ucp,
                custom_payload = CustomPayload datadogWebhook,
                encode_as_form = eaf,
                headers = hs \<rparr>)))"

fun buildTerraformWebhooks :: "Webhook list \<Rightarrow> error + StateWebhook list" where
  "buildTerraformWebhooks [] = Inr []"
| "buildTerraformWebhooks (datadogWebhook # rest) =
     (case buildTerraformWebhooks_body datadogWebhook of
        Inl err \<Rightarrow> Inl err
      | Inr terraformWebhook \<Rightarrow>
          (case buildTerraformWebhooks rest of
             Inl err \<Rightarrow> Inl err
           | Inr terraformWebhooks \<Rightarrow> Inr (terraformWebhook # terraformWebhooks)))"

subsection \<open>The collaborators: the client and the resource data\<close>

text \<open>
  The Datadog client is not part of this file of the repository; its three methods are
  parameters, functions on a state \<open>'c\<close> of the remote side. A call that fails gives
  the text of its error. Each call made through the client is also appended to a log,
  which lets the theorems speak of the requests that were sent.
\<close>

record 'c Client =
  GetIntegrationWebhook :: "'c \<Rightarrow> (string + IntegrationWebhookRequest) \<times> 'c"
  CreateIntegrationWebhook :: "IntegrationWebhookRequest \<Rightarrow> 'c \<Rightarrow> string option \<times> 'c"
  DeleteIntegrationWebhook :: "'c \<Rightarrow> string option \<times> 'c"

datatype call = GetCall | CreateCall IntegrationWebhookRequest | DeleteCall

record 'c Remote =
  remote :: 'c
  calls :: "call list"

definition client_get ::
  "'c Client \<Rightarrow> 'c Remote \<Rightarrow> (string + IntegrationWebhookRequest) \<times> 'c Remote" where
  "client_get client r =
     (case GetIntegrationWebhook client (remote r) of
        (res, c') \<Rightarrow> (res, \<lparr> remote = c', calls = calls r @ [GetCall] \<rparr>))"


definition client_delete :: "'c Client \<Rightarrow> 'c Remote \<Rightarrow> string option \<times> 'c Remote" where
  "client_delete client r =
     (case DeleteIntegrationWebhook client (remote r) of
        (res, c') \<Rightarrow> (res, \<lparr> remote = c', calls = calls r @ [DeleteCall] \<rparr>))"

text \<open>
  \<^verbatim>\<open>schema.ResourceData\<close> belongs to the plugin SDK: a state \<open>'d\<close> with the two accesses
  the resource makes, \<^verbatim>\<open>d.Get("hooks")\<close> and \<^verbatim>\<open>d.Set("hooks", v)\<close>; the latter returns an
  error or nil together with the data after the call.
\<close>

record 'd ResourceData =
  Get_hooks :: "'d \<Rightarrow> ConfigWebhook list"
  Set_hooks :: "'d \<Rightarrow> StateWebhook list \<Rightarrow> error option \<times> 'd"

subsection \<open>The operations of the resource\<close>



definition resourceDatadogIntegrationWebhookRead ::
  "'c Client \<Rightarrow> 'd ResourceData \<Rightarrow> 'd \<Rightarrow> 'c Remote \<Rightarrow> error option \<times> 'd \<times> 'c Remote" where
  "resourceDatadogIntegrationWebhookRead client sdk d r =
     (case client_get client r of
        (Inl msg, r') \<Rightarrow>
          (Some (Errorf (''error reading the Webhook integration: '' @ msg)), d, r')
      | (Inr integration, r') \<Rightarrow>
          (case buildTerraformWebhooks (Webhooks integration) of
             Inl err \<Rightarrow> (Some err, d, r')
           | Inr terraformWebhooks \<Rightarrow>
               (case Set_hooks sdk d terraformWebhooks of
                  (res, d') \<Rightarrow> (res, d', r'))))"


definition resourceDatadogIntegrationWebhookDelete ::
  "'c Client \<Rightarrow> 'd \<Rightarrow> 'c Remote \<Rightarrow> error option \<times> 'd \<times> 'c Remote" where
  "resourceDatadogIntegrationWebhookDelete client d r =
     (case client_delete client r of
        (Some msg, r') \<Rightarrow>
          (Some (Errorf (''error deleting a Webhook integration: '' @ msg)), d, r')
      | (None, r') \<Rightarrow> (None, d, r'))"

subsection \<open>Notions used to state the properties\<close>

text \<open>
  The text of a header line before its first colon and the text after it (for a line
  that has a colon).
\<close>

definition text_before_first_colon :: "string \<Rightarrow> string" where
  "text_before_first_colon l = takeWhile (\<lambda>c. c \<noteq> CHR '':'') l"

definition text_after_first_colon :: "string \<Rightarrow> string" where
  "text_after_first_colon l = tl (dropWhile (\<lambda>c. c \<noteq> CHR '':'') l)"

text \<open>
  The entries of a header mapping: no key and no value contains a colon or a newline;
  no value begins with a space.
\<close>

definition colon_newline_free :: "(string \<times> string) list \<Rightarrow> bool" where
  "colon_newline_free m =
     (\<forall>(k, v) \<in> set m. CHR '':'' \<notin> set k \<and> CHR 0x0A \<notin> set k
        \<and> CHR '':'' \<notin> set v \<and> CHR 0x0A \<notin> set v)"

definition no_leading_space :: "(string \<times> string) list \<Rightarrow> bool" where
  "no_leading_space m = (\<forall>(k, v) \<in> set m. take 1 v \<noteq> '' '')"

text \<open>
  The element of the state that reproduces an element of the configuration field for
  field: the same name, url, booleans and payload, and the mapping of which the
  configuration's header entries are the entries.
\<close>

definition reproduced :: "ConfigWebhook \<Rightarrow> StateWebhook" where
  "reproduced w =
     \<lparr> name = Some (name w),
       url = Some (url w),
       use_custom_payload = use_custom_payload w,
       custom_payload = custom_payload w,
       encode_as_form = encode_as_form w,
       headers = map_option map_of (headers w) \<rparr>"

section \<open>Properties\<close>

subsection \<open>Splitting, joining and trimming\<close>

lemma strings_Split_not_Nil: "strings_Split s c \<noteq> []"
  by (induction s) (auto split: list.splits)

lemma strings_Split_no_sep: "c \<notin> set s \<Longrightarrow> strings_Split s c = [s]"
  by (induction s) auto

lemma strings_Split_append:
  "c \<notin> set a \<Longrightarrow> strings_Split (a @ c # b) c = a # strings_Split b c"
  by (induction a) auto

lemma strings_Split_hd: "hd (strings_Split s c) = takeWhile (\<lambda>x. x \<noteq> c) s"
  using strings_Split_not_Nil [of _ c] by (induction s) (auto split: list.splits)

lemma strings_Split_chars: "l \<in> set (strings_Split s c) \<Longrightarrow> set l \<subseteq> set s"
proof (induction s arbitrary: l)
  case Nil
  then show ?case by simp
next
  case (Cons x xs)
  show ?case
  proof (cases "x = c")
    case True
    with Cons show ?thesis by auto
  next
    case False
    obtain p ps where sp: "strings_Split xs c = p # ps"
      using strings_Split_not_Nil [of xs c] by (cases "strings_Split xs c") auto
    with False Cons.prems have "l = x # p \<or> l \<in> set ps" by auto
    then show ?thesis
    proof
      assume "l = x # p"
      moreover have "set p \<subseteq> set xs" using Cons.IH [of p] sp by simp
      ultimately show ?thesis by auto
    next
      assume "l \<in> set ps"
      then have "set l \<subseteq> set xs" using Cons.IH [of l] sp by simp
      then show ?thesis by auto
    qed
  qed
qed

lemma strings_Split_Join_lines:
  assumes "ls \<noteq> []" and "\<forall>l \<in> set ls. c \<notin> set l"
  shows "strings_Split (strings_Join ls [c]) c = ls"
  using assms
proof (induction ls "[c]" rule: strings_Join.induct)
  case 1
  then show ?case by simp
next
  case (2 x)
  then show ?case by (simp add: strings_Split_no_sep)
next
  case (3 x y ys)
  then show ?case by (simp add: strings_Split_append)
qed

lemma dropWhile_rev_Nil:
  "dropWhile P (rev (dropWhile P s)) = [] \<Longrightarrow> dropWhile P s = []"
proof (rule ccontr)
  assume a: "dropWhile P (rev (dropWhile P s)) = []" and b: "dropWhile P s \<noteq> []"
  from b have "\<not> P (hd (dropWhile P s))" by (rule hd_dropWhile)
  moreover from a have "\<forall>x \<in> set (rev (dropWhile P s)). P x"
    by (simp only: dropWhile_eq_Nil_conv)
  moreover from b have "hd (dropWhile P s) \<in> set (rev (dropWhile P s))" by simp
  ultimately show False by blast
qed

text \<open>Trimming leaves nothing exactly when every byte is in the cutset.\<close>

lemma strings_Trim_Nil_iff: "strings_Trim s cutset = [] \<longleftrightarrow> set s \<subseteq> set cutset"
proof
  assume "strings_Trim s cutset = []"
  then have "dropWhile (\<lambda>c. c \<in> set cutset) s = []"
    unfolding strings_Trim_def rev_is_Nil_conv by (rule dropWhile_rev_Nil)
  then show "set s \<subseteq> set cutset"
    by (auto simp: dropWhile_eq_Nil_conv)
next
  assume "set s \<subseteq> set cutset"
  then have "dropWhile (\<lambda>c. c \<in> set cutset) s = []"
    by (auto simp: dropWhile_eq_Nil_conv)
  then show "strings_Trim s cutset = []"
    by (simp only: strings_Trim_def rev.simps dropWhile.simps)
qed

lemma ParseBool_FormatBool: "strconv_ParseBool (strconv_FormatBool b) = Inr b"
  by (simp add: strconv_ParseBool_def strconv_FormatBool_def)

subsection \<open>One header line\<close>

lemma line_decompose:
  assumes "CHR '':'' \<in> set l"
  shows "l = text_before_first_colon l @ CHR '':'' # text_after_first_colon l"
proof -
  from assms have "dropWhile (\<lambda>c. c \<noteq> CHR '':'') l \<noteq> []"
    by (auto simp: dropWhile_eq_Nil_conv)
  moreover from this have "hd (dropWhile (\<lambda>c. c \<noteq> CHR '':'') l) = CHR '':''"
    using hd_dropWhile [of "\<lambda>c. c \<noteq> CHR '':''" l] by simp
  ultimately have "dropWhile (\<lambda>c. c \<noteq> CHR '':'') l = CHR '':'' # text_after_first_colon l"
    by (cases "dropWhile (\<lambda>c. c \<noteq> CHR '':'') l") (auto simp: text_after_first_colon_def)
  then show ?thesis
    using takeWhile_dropWhile_id [of "\<lambda>c. c \<noteq> CHR '':''" l]
    by (simp add: text_before_first_colon_def)
qed

lemma text_before_no_colon: "CHR '':'' \<notin> set (text_before_first_colon l)"
  by (auto simp: text_before_first_colon_def dest: set_takeWhileD)

lemma line_split_single:
  assumes "CHR '':'' \<in> set l" and "CHR '':'' \<notin> set (text_after_first_colon l)"
  shows "strings_Split l (CHR '':'') = [text_before_first_colon l, text_after_first_colon l]"
proof -
  have "strings_Split (text_before_first_colon l @ CHR '':'' # text_after_first_colon l) (CHR '':'')
      = text_before_first_colon l # strings_Split (text_after_first_colon l) (CHR '':'')"
    by (rule strings_Split_append) (rule text_before_no_colon)
  with assms show ?thesis
    using line_decompose [OF assms(1)] by (simp add: strings_Split_no_sep)
qed

subsection \<open>The loop over the header lines\<close>

text \<open>When every line has a colon the loop stores one entry per line, in order.\<close>

lemma loop_all_colon:
  assumes "\<forall>l \<in> set ls. CHR '':'' \<in> set l"
  shows "buildTerraformHeader_loop ls m =
    Inr (foldl (\<lambda>m l. m(hd (strings_Split l (CHR '':'')) \<mapsto>
          strings_TrimLeft (strings_Join (tl (strings_Split l (CHR '':''))) []) '' '')) m ls)"
  using assms
proof (induction ls arbitrary: m)
  case Nil
  then show ?case by simp
next
  case (Cons l ls)
  obtain k vs where sp: "strings_Split l (CHR '':'') = k # vs"
    using strings_Split_not_Nil [of l "CHR '':''"] by (cases "strings_Split l (CHR '':'')") auto
  from Cons.prems have rest: "\<forall>l \<in> set ls. CHR '':'' \<in> set l" and "CHR '':'' \<in> set l"
    by auto
  then have "buildTerraformHeader_loop (l # ls) m =
      buildTerraformHeader_loop ls (m(k \<mapsto> strings_TrimLeft (strings_Join vs []) '' ''))"
    using sp by (simp add: strings_Contains_def)
  also have "m(k \<mapsto> strings_TrimLeft (strings_Join vs []) '' '') =
      m(hd (strings_Split l (CHR '':'')) \<mapsto>
        strings_TrimLeft (strings_Join (tl (strings_Split l (CHR '':''))) []) '' '')"
    by (simp only: sp list.sel)
  finally show ?case
    by (simp only: Cons.IH [OF rest] foldl_Cons)
qed

text \<open>The entry of a line stays in the map unless a later line has the same key.\<close>

lemma foldl_update_last:
  assumes "i < length ls"
    and "\<forall>j. i < j \<and> j < length ls \<longrightarrow> f (ls ! j) \<noteq> f (ls ! i)"
  shows "foldl (\<lambda>m l. m(f l \<mapsto> g l)) m ls (f (ls ! i)) = Some (g (ls ! i))"
  using assms
proof (induction ls arbitrary: i rule: rev_induct)
  case Nil
  then show ?case by simp
next
  case (snoc l ls)
  show ?case
  proof (cases "i = length ls")
    case True
    then show ?thesis by simp
  next
    case False
    with snoc.prems(1) have i: "i < length ls" by simp
    from snoc.prems(2) i have "f l \<noteq> f (ls ! i)"
      by (auto simp: nth_append dest: spec [of _ "length ls"])
    moreover have "\<forall>j. i < j \<and> j < length ls \<longrightarrow> f (ls ! j) \<noteq> f (ls ! i)"
    proof (intro allI impI)
      fix j assume j: "i < j \<and> j < length ls"
      with snoc.prems(2) have "f ((ls @ [l]) ! j) \<noteq> f ((ls @ [l]) ! i)" by simp
      with j i show "f (ls ! j) \<noteq> f (ls ! i)" by (simp add: nth_append)
    qed
    ultimately show ?thesis
      using snoc.IH [OF i] i by (simp add: nth_append)
  qed
qed

text \<open>The first line without a colon ends the loop, and the error quotes it.\<close>

lemma loop_first_malformed:
  assumes "\<exists>l \<in> set ls. CHR '':'' \<notin> set l"
  shows "buildTerraformHeader_loop ls m =
    Inl (Errorf (''header not correctly formatted, expected ':' in '' @ [CHR 0x27]
      @ hd (filter (\<lambda>l. CHR '':'' \<notin> set l) ls) @ [CHR 0x27]))"
  using assms
proof (induction ls arbitrary: m)
  case Nil
  then show ?case by simp
next
  case (Cons l ls)
  show ?case
  proof (cases "CHR '':'' \<in> set l")
    case True
    with Cons.prems have ex: "\<exists>l \<in> set ls. CHR '':'' \<notin> set l" by auto
    obtain k vs where sp: "strings_Split l (CHR '':'') = k # vs"
      using strings_Split_not_Nil [of l "CHR '':''"] by (cases "strings_Split l (CHR '':'')") auto
    show ?thesis
      using True sp Cons.IH [OF ex] by (simp add: strings_Contains_def)
  next
    case False
    then show ?thesis by (simp add: strings_Contains_def)
  qed
qed

subsection \<open>Decoding a header string\<close>

text \<open>
  C10. For every wire header string that consists only of spaces, tabs and newlines
  (the empty string too), \<^verbatim>\<open>buildTerraformHeader\<close> succeeds and returns the empty
  mapping, although the lines of such a string have no colon.
\<close>

theorem buildTerraformHeader_blank:
  assumes "set s \<subseteq> {CHR '' '', CHR 0x09, CHR 0x0A}"
  shows "buildTerraformHeader s = Inr Map.empty"
proof -
  from assms have "strings_Trim s [CHR '' '', CHR 0x09, CHR 0x0A] = []"
    by (simp add: strings_Trim_Nil_iff)
  then show ?thesis by (simp add: buildTerraformHeader_def)
qed

text \<open>A string of a newline, a tab and two spaces, and the empty string.\<close>

theorem buildTerraformHeader_blank_witness:
  "set [CHR 0x0A, CHR 0x09, CHR '' '', CHR '' ''] \<subseteq> {CHR '' '', CHR 0x09, CHR 0x0A}
   \<and> CHR '':'' \<notin> set [CHR 0x0A, CHR 0x09, CHR '' '', CHR '' '']
   \<and> buildTerraformHeader [CHR 0x0A, CHR 0x09, CHR '' '', CHR '' ''] = Inr Map.empty
   \<and> buildTerraformHeader [] = Inr Map.empty"
  using buildTerraformHeader_blank [of "[CHR 0x0A, CHR 0x09, CHR '' '', CHR '' '']"]
    buildTerraformHeader_blank [of "[]"]
  by simp

text \<open>
  C6, as the claim states it, fails: the string of one space has a line that is not
  empty and has no colon, and decoding it returns the empty mapping, not an error.
\<close>

theorem buildTerraformHeader_space_line_counterexample:
  "'' '' \<in> set (strings_Split '' '' (CHR 0x0A)) \<and> '' '' \<noteq> [] \<and> CHR '':'' \<notin> set '' ''
   \<and> \<not> isl (buildTerraformHeader '' '')"
  by (simp add: buildTerraformHeader_def strings_Trim_def)

text \<open>
  C6, amended. For every input string that has a byte other than space, tab and newline
  and has a line with no colon, \<^verbatim>\<open>buildTerraformHeader\<close> returns no mapping: it fails, and
  the error quotes the first line of the input that has no colon.
\<close>

theorem buildTerraformHeader_malformed_line:
  assumes "\<not> set s \<subseteq> {CHR '' '', CHR 0x09, CHR 0x0A}"
    and "l \<in> set (strings_Split s (CHR 0x0A))"
    and "CHR '':'' \<notin> set l"
  shows "buildTerraformHeader s =
    Inl (Errorf (''header not correctly formatted, expected ':' in '' @ [CHR 0x27]
      @ hd (filter (\<lambda>l. CHR '':'' \<notin> set l) (strings_Split s (CHR 0x0A))) @ [CHR 0x27]))"
proof -
  from assms(1) have "strings_Trim s [CHR '' '', CHR 0x09, CHR 0x0A] \<noteq> []"
    by (simp add: strings_Trim_Nil_iff)
  moreover from assms(2,3) have "\<exists>l \<in> set (strings_Split s (CHR 0x0A)). CHR '':'' \<notin> set l"
    by blast
  ultimately show ?thesis
    by (simp add: buildTerraformHeader_def loop_first_malformed)
qed

text \<open>The input \<^verbatim>\<open>X-Foo\<close>, and a well-formed line followed by \<^verbatim>\<open>X-Foo\<close>.\<close>

theorem buildTerraformHeader_malformed_line_witness:
  "\<not> set ''X-Foo'' \<subseteq> {CHR '' '', CHR 0x09, CHR 0x0A}
   \<and> ''X-Foo'' \<in> set (strings_Split ''X-Foo'' (CHR 0x0A))
   \<and> CHR '':'' \<notin> set ''X-Foo''
   \<and> buildTerraformHeader ''X-Foo'' =
       Inl (Errorf (''header not correctly formatted, expected ':' in ''
                    @ [CHR 0x27] @ ''X-Foo'' @ [CHR 0x27]))
   \<and> ''X-Foo'' \<in> set (strings_Split (''a: b'' @ [CHR 0x0A] @ ''X-Foo'') (CHR 0x0A))
   \<and> buildTerraformHeader (''a: b'' @ [CHR 0x0A] @ ''X-Foo'') =
       Inl (Errorf (''header not correctly formatted, expected ':' in ''
                    @ [CHR 0x27] @ ''X-Foo'' @ [CHR 0x27]))"
  using buildTerraformHeader_malformed_line [of "''X-Foo''" "''X-Foo''"]
    buildTerraformHeader_malformed_line [of "''a: b'' @ [CHR 0x0A] @ ''X-Foo''" "''X-Foo''"]
  by simp

text \<open>
  C2, as the claim states it, fails. For the line \<^verbatim>\<open>k:  v\<close>, with two spaces after the
  colon, the value stored is \<^verbatim>\<open>v\<close>: both spaces are removed, not one. For the line
  \<^verbatim>\<open>k: a:b\<close> the value stored is \<^verbatim>\<open>ab\<close>: the colon of the value is lost.
\<close>

theorem buildTerraformHeader_value_counterexample:
  "buildTerraformHeader ''k:  v'' = Inr (map_of [(''k'', ''v'')])
   \<and> buildTerraformHeader ''k:  v'' \<noteq> Inr (map_of [(''k'', '' v'')])
   \<and> buildTerraformHeader ''k: a:b'' = Inr (map_of [(''k'', ''ab'')])
   \<and> buildTerraformHeader ''k: a:b'' \<noteq> Inr (map_of [(''k'', ''a:b'')])"
proof -
  have a: "buildTerraformHeader ''k:  v'' = Inr (map_of [(''k'', ''v'')])"
    by (simp add: buildTerraformHeader_def strings_Trim_def strings_Contains_def
        strings_TrimLeft_def)
  have b: "buildTerraformHeader ''k: a:b'' = Inr (map_of [(''k'', ''ab'')])"
    by (simp add: buildTerraformHeader_def strings_Trim_def strings_Contains_def
        strings_TrimLeft_def)
  have c: "map_of [(''k'', ''v'')] \<noteq> map_of [(''k'', '' v'')]"
    by (simp add: fun_eq_iff)
  have d: "map_of [(''k'', ''ab'')] \<noteq> map_of [(''k'', ''a:b'')]"
    by (simp add: fun_eq_iff)
  from a b c d show ?thesis by simp
qed

text \<open>
  C2, amended. When every line of the header string has a colon, decoding succeeds, and
  for every line \<open>l\<close> whose text after the first colon has no further colon the mapping
  has, under the text of \<open>l\<close> before its first colon, the text after that colon with
  all its leading spaces removed, unless a later line has the same key.
\<close>

theorem buildTerraformHeader_line:
  assumes all_colon: "\<forall>l \<in> set (strings_Split s (CHR 0x0A)). CHR '':'' \<in> set l"
    and i: "i < length (strings_Split s (CHR 0x0A))"
    and l: "l = strings_Split s (CHR 0x0A) ! i"
    and single: "CHR '':'' \<notin> set (text_after_first_colon l)"
    and later: "\<forall>j. i < j \<and> j < length (strings_Split s (CHR 0x0A)) \<longrightarrow>
        text_before_first_colon (strings_Split s (CHR 0x0A) ! j) \<noteq> text_before_first_colon l"
  shows "\<exists>m. buildTerraformHeader s = Inr m \<and>
    m (text_before_first_colon l) =
      Some (dropWhile (\<lambda>c. c = CHR '' '') (text_after_first_colon l))"
proof -
  let ?ls = "strings_Split s (CHR 0x0A)"
  let ?f = "\<lambda>l. hd (strings_Split l (CHR '':''))"
  let ?g = "\<lambda>l. strings_TrimLeft (strings_Join (tl (strings_Split l (CHR '':''))) []) '' ''"
  have key: "\<And>x. hd (strings_Split x (CHR '':'')) = text_before_first_colon x"
    by (simp add: strings_Split_hd text_before_first_colon_def)
  from i l have lin: "l \<in> set ?ls" by simp
  with all_colon have colon: "CHR '':'' \<in> set l" by blast
  from lin have "set l \<subseteq> set s" by (rule strings_Split_chars)
  with colon have "\<not> set s \<subseteq> set [CHR '' '', CHR 0x09, CHR 0x0A]" by auto
  then have trim: "strings_Trim s [CHR '' '', CHR 0x09, CHR 0x0A] \<noteq> []"
    by (simp only: strings_Trim_Nil_iff not_False_eq_True)
  have res: "buildTerraformHeader s = Inr (foldl (\<lambda>m l. m(?f l \<mapsto> ?g l)) Map.empty ?ls)"
    using trim loop_all_colon [OF all_colon] by (simp add: buildTerraformHeader_def)
  from later l have "\<forall>j. i < j \<and> j < length ?ls \<longrightarrow> ?f (?ls ! j) \<noteq> ?f (?ls ! i)"
    by (simp add: key)
  with i have "foldl (\<lambda>m l. m(?f l \<mapsto> ?g l)) Map.empty ?ls (?f (?ls ! i)) = Some (?g (?ls ! i))"
    by (rule foldl_update_last)
  moreover have "?g l = dropWhile (\<lambda>c. c = CHR '' '') (text_after_first_colon l)"
    using line_split_single [OF colon single] by (simp add: strings_TrimLeft_def)
  ultimately show ?thesis
    using res l key by simp
qed

text \<open>
  The header \<^verbatim>\<open>Content-Type: application/json\<close>, and a header of three lines: the value
  of \<^verbatim>\<open>b\<close> loses both of its leading spaces and keeps the inner one, and the first line
  is overridden by the third, which has its key.
\<close>

theorem buildTerraformHeader_line_witness:
  "(\<exists>m. buildTerraformHeader ''Content-Type: application/json'' = Inr m
        \<and> m ''Content-Type'' = Some ''application/json'')
   \<and> strings_Split (''a: 1'' @ [CHR 0x0A] @ ''b:  2 3'' @ [CHR 0x0A] @ ''a:4'') (CHR 0x0A)
       = [''a: 1'', ''b:  2 3'', ''a:4'']
   \<and> (\<exists>m. buildTerraformHeader (''a: 1'' @ [CHR 0x0A] @ ''b:  2 3'' @ [CHR 0x0A] @ ''a:4'') = Inr m
        \<and> m ''b'' = Some ''2 3'')
   \<and> (\<exists>m. buildTerraformHeader (''a: 1'' @ [CHR 0x0A] @ ''b:  2 3'' @ [CHR 0x0A] @ ''a:4'') = Inr m
        \<and> m ''a'' = Some ''4'')"
proof -
  let ?s = "''a: 1'' @ [CHR 0x0A] @ ''b:  2 3'' @ [CHR 0x0A] @ ''a:4''"
  have sp: "strings_Split ?s (CHR 0x0A) = [''a: 1'', ''b:  2 3'', ''a:4'']" by simp
  let ?c = "''Content-Type: application/json''"
  have sp1: "strings_Split ?c (CHR 0x0A) = [?c]" by simp
  have all1: "\<forall>l \<in> set (strings_Split ?c (CHR 0x0A)). CHR '':'' \<in> set l"
    by (simp add: sp1)
  have later1: "\<forall>j. 0 < j \<and> j < length (strings_Split ?c (CHR 0x0A)) \<longrightarrow>
      text_before_first_colon (strings_Split ?c (CHR 0x0A) ! j) \<noteq> text_before_first_colon ?c"
    by (auto simp: sp1)
  have one: "\<exists>m. buildTerraformHeader ?c = Inr m
        \<and> m ''Content-Type'' = Some ''application/json''"
    using buildTerraformHeader_line [OF all1 _ _ _ later1]
    by (simp add: sp1 text_before_first_colon_def text_after_first_colon_def)
  have all: "\<forall>l \<in> set (strings_Split ?s (CHR 0x0A)). CHR '':'' \<in> set l"
    by (simp add: sp)
  have later_b: "\<forall>j. 1 < j \<and> j < length (strings_Split ?s (CHR 0x0A)) \<longrightarrow>
      text_before_first_colon (strings_Split ?s (CHR 0x0A) ! j)
        \<noteq> text_before_first_colon ''b:  2 3''"
  proof (intro allI impI)
    fix j :: nat
    assume "1 < j \<and> j < length (strings_Split ?s (CHR 0x0A))"
    then have "j = 2" by (simp add: sp)
    then show "text_before_first_colon (strings_Split ?s (CHR 0x0A) ! j)
        \<noteq> text_before_first_colon ''b:  2 3''"
      by (simp add: sp text_before_first_colon_def)
  qed
  have later_a: "\<forall>j. 2 < j \<and> j < length (strings_Split ?s (CHR 0x0A)) \<longrightarrow>
      text_before_first_colon (strings_Split ?s (CHR 0x0A) ! j)
        \<noteq> text_before_first_colon ''a:4''"
    by (auto simp: sp)
  have b: "\<exists>m. buildTerraformHeader ?s = Inr m \<and> m ''b'' = Some ''2 3''"
    using buildTerraformHeader_line [OF all _ _ _ later_b]
    by (simp add: sp text_before_first_colon_def text_after_first_colon_def)
  have a: "\<exists>m. buildTerraformHeader ?s = Inr m \<and> m ''a'' = Some ''4''"
    using buildTerraformHeader_line [OF all _ _ _ later_a]
    by (simp add: sp text_before_first_colon_def text_after_first_colon_def)
  from one sp b a show ?thesis by blast
qed

subsection \<open>Encoding a header mapping and decoding it again\<close>

lemma map_add_update_fresh:
  assumes "M k = None"
  shows "m(k \<mapsto> v) ++ M = m ++ M(k \<mapsto> v)"
  using assms by (auto simp: map_add_def fun_eq_iff split: option.splits)

text \<open>The loop on the lines that \<^verbatim>\<open>buildDatadogHeader\<close> writes.\<close>

lemma loop_entries:
  assumes "distinct (map fst kvs)"
    and "\<forall>(k, v) \<in> set kvs. CHR '':'' \<notin> set k \<and> CHR '':'' \<notin> set v \<and> take 1 v \<noteq> '' ''"
  shows "buildTerraformHeader_loop (map (\<lambda>(key, value). key @ '': '' @ value) kvs) m
    = Inr (m ++ map_of kvs)"
  using assms
proof (induction kvs arbitrary: m)
  case Nil
  then show ?case by simp
next
  case (Cons e kvs)
  obtain k v where e: "e = (k, v)" by (cases e)
  from Cons.prems e have k: "CHR '':'' \<notin> set k" and v: "CHR '':'' \<notin> set v"
    and sp: "take 1 v \<noteq> '' ''" by auto
  from k v have "strings_Split (k @ CHR '':'' # CHR '' '' # v) (CHR '':'') = [k, CHR '' '' # v]"
    by (simp add: strings_Split_append strings_Split_no_sep)
  moreover from sp have "dropWhile (\<lambda>c. c = CHR '' '') v = v" by (cases v) auto
  ultimately have
    "buildTerraformHeader_loop (map (\<lambda>(key, value). key @ '': '' @ value) (e # kvs)) m
      = buildTerraformHeader_loop (map (\<lambda>(key, value). key @ '': '' @ value) kvs) (m(k \<mapsto> v))"
    by (simp add: e strings_Contains_def strings_TrimLeft_def)
  also have "\<dots> = Inr (m(k \<mapsto> v) ++ map_of kvs)"
    using Cons.prems by (intro Cons.IH) auto
  also have "m(k \<mapsto> v) ++ map_of kvs = m ++ map_of (e # kvs)"
  proof -
    from Cons.prems(1) e have "map_of kvs k = None"
      by (simp add: map_of_eq_None_iff)
    then show ?thesis by (simp add: e map_add_update_fresh)
  qed
  finally show ?case .
qed

lemma decode_encode_entries:
  assumes "distinct (map fst m)" and "colon_newline_free m" and "no_leading_space m"
  shows "buildTerraformHeader (buildDatadogHeader m) = Inr (map_of m)"
proof (cases m)
  case Nil
  then show ?thesis
    by (simp add: buildDatadogHeader_def buildTerraformHeader_def strings_Trim_def)
next
  case (Cons e es)
  let ?ls = "map (\<lambda>(key, value). key @ '': '' @ value) m"
  from assms(2) have nonl: "\<forall>l \<in> set ?ls. CHR 0x0A \<notin> set l"
    by (auto simp: colon_newline_free_def)
  from Cons have ne: "?ls \<noteq> []" by simp
  have sp: "strings_Split (buildDatadogHeader m) (CHR 0x0A) = ?ls"
    unfolding buildDatadogHeader_def using ne nonl by (rule strings_Split_Join_lines)
  from ne have "hd ?ls \<in> set ?ls" by (rule hd_in_set)
  then have "hd ?ls \<in> set (strings_Split (buildDatadogHeader m) (CHR 0x0A))"
    by (simp only: sp)
  then have "set (hd ?ls) \<subseteq> set (buildDatadogHeader m)" by (rule strings_Split_chars)
  moreover from Cons have "CHR '':'' \<in> set (hd ?ls)" by (cases e) simp
  ultimately have "\<not> set (buildDatadogHeader m) \<subseteq> set [CHR '' '', CHR 0x09, CHR 0x0A]"
    by auto
  then have trim: "strings_Trim (buildDatadogHeader m) [CHR '' '', CHR 0x09, CHR 0x0A] \<noteq> []"
    by (simp only: strings_Trim_Nil_iff not_False_eq_True)
  have "buildTerraformHeader_loop ?ls Map.empty = Inr (Map.empty ++ map_of m)"
    using assms by (intro loop_entries) (auto simp: colon_newline_free_def no_leading_space_def)
  with trim sp show ?thesis by (simp add: buildTerraformHeader_def)
qed

text \<open>
  C1, as the claim states it, fails: the mapping with the one key \<^verbatim>\<open>k\<close> and the value
  \<^verbatim>\<open> v\<close>, a space followed by \<^verbatim>\<open>v\<close>, has no colon and no newline, is encoded as \<^verbatim>\<open>k:  v\<close>
  and decoded with the value \<^verbatim>\<open>v\<close>.
\<close>

theorem decode_encode_leading_space_counterexample:
  "colon_newline_free [(''k'', '' v'')]
   \<and> buildDatadogHeader [(''k'', '' v'')] = ''k:  v''
   \<and> buildTerraformHeader (buildDatadogHeader [(''k'', '' v'')]) = Inr (map_of [(''k'', ''v'')])
   \<and> buildTerraformHeader (buildDatadogHeader [(''k'', '' v'')]) \<noteq> Inr (map_of [(''k'', '' v'')])"
proof -
  have "buildTerraformHeader (buildDatadogHeader [(''k'', '' v'')]) = Inr (map_of [(''k'', ''v'')])"
    by (simp add: buildDatadogHeader_def buildTerraformHeader_def strings_Trim_def
        strings_Contains_def strings_TrimLeft_def)
  moreover have "map_of [(''k'', ''v'')] \<noteq> map_of [(''k'', '' v'')]"
    by (simp add: fun_eq_iff)
  ultimately show ?thesis
    by (simp add: colon_newline_free_def buildDatadogHeader_def)
qed

text \<open>
  C1, amended. For every header mapping \<open>m\<close> (its entries in any order of iteration)
  whose keys and values contain no colon and no newline and whose values do not begin
  with a space, decoding the encoded form succeeds and returns exactly \<open>m\<close>.
\<close>

theorem decode_encode_headers:
  assumes "distinct (map fst m)" and "colon_newline_free m" and "no_leading_space m"
  shows "buildTerraformHeader (buildDatadogHeader m) = Inr (map_of m)"
  using assms by (rule decode_encode_entries)

text \<open>Two entries, with a space inside a value, and the empty mapping.\<close>

theorem decode_encode_headers_witness:
  "distinct (map fst [(''Content-Type'', ''application/json''), (''X-Token'', ''a b'')])
   \<and> colon_newline_free [(''Content-Type'', ''application/json''), (''X-Token'', ''a b'')]
   \<and> no_leading_space [(''Content-Type'', ''application/json''), (''X-Token'', ''a b'')]
   \<and> buildTerraformHeader
        (buildDatadogHeader [(''Content-Type'', ''application/json''), (''X-Token'', ''a b'')])
       = Inr (map_of [(''Content-Type'', ''application/json''), (''X-Token'', ''a b'')])
   \<and> buildTerraformHeader (buildDatadogHeader []) = Inr (map_of [])"
  using decode_encode_headers [of "[(''Content-Type'', ''application/json''), (''X-Token'', ''a b'')]"]
    decode_encode_headers [of "[]"]
  by (simp add: colon_newline_free_def no_leading_space_def)

subsection \<open>Translating a list of webhooks out and back\<close>

lemma body_round_trip:
  assumes "\<forall>hs. headers w = Some hs \<longrightarrow>
      distinct (map fst hs) \<and> colon_newline_free hs \<and> no_leading_space hs"
  shows "buildTerraformWebhooks_body (buildDatadogWebhook w) = Inr (reproduced w)"
proof -
  have h: "(case Headers (buildDatadogWebhook w) of None \<Rightarrow> Inr None
      | Some s \<Rightarrow> map_sum id Some (buildTerraformHeader s)) = Inr (map_option map_of (headers w))"
  proof (cases "headers w")
    case None
    then show ?thesis by (simp add: buildDatadogWebhook_def)
  next
    case (Some hs)
    with assms have "buildTerraformHeader (buildDatadogHeader hs) = Inr (map_of hs)"
      by (intro decode_encode_entries) auto
    with Some show ?thesis by (simp add: buildDatadogWebhook_def)
  qed
  have u: "(case UseCustomPayload (buildDatadogWebhook w) of None \<Rightarrow> Inr None
      | Some s \<Rightarrow> map_sum id Some (strconv_ParseBool s)) = Inr (use_custom_payload w)"
    by (cases "use_custom_payload w") (simp_all add: buildDatadogWebhook_def ParseBool_FormatBool)
  have e: "(case EncodeAsForm (buildDatadogWebhook w) of None \<Rightarrow> Inr None
      | Some s \<Rightarrow> map_sum id Some (strconv_ParseBool s)) = Inr (encode_as_form w)"
    by (cases "encode_as_form w") (simp_all add: buildDatadogWebhook_def ParseBool_FormatBool)
  have c: "CustomPayload (buildDatadogWebhook w) = custom_payload w"
    by (cases "custom_payload w") (simp_all add: buildDatadogWebhook_def)
  have n: "Name (buildDatadogWebhook w) = Some (name w)"
    "URL (buildDatadogWebhook w) = Some (url w)"
    by (simp_all add: buildDatadogWebhook_def)
  show ?thesis
    unfolding buildTerraformWebhooks_body_def by (simp only: h u e c n sum.case reproduced_def)
qed

text \<open>
  C3, as the claim states it, fails, for the reason C1 does: a list of one webhook whose
  header mapping has the value \<^verbatim>\<open> v\<close> comes back with the value \<^verbatim>\<open>v\<close>.
\<close>

theorem webhooks_round_trip_leading_space_counterexample:
  "buildTerraformWebhooks (map buildDatadogWebhook
      [\<lparr> name = ''n'', url = ''u'', use_custom_payload = Some True, custom_payload = None,
         encode_as_form = None, headers = Some [(''k'', '' v'')] \<rparr>])
   \<noteq> Inr (map reproduced
      [\<lparr> name = ''n'', url = ''u'', use_custom_payload = Some True, custom_payload = None,
         encode_as_form = None, headers = Some [(''k'', '' v'')] \<rparr>])"
proof -
  have "buildTerraformHeader (buildDatadogHeader [(''k'', '' v'')]) = Inr (map_of [(''k'', ''v'')])"
    by (simp add: buildDatadogHeader_def buildTerraformHeader_def strings_Trim_def
        strings_Contains_def strings_TrimLeft_def)
  moreover have "map_of [(''k'', ''v'')] \<noteq> map_of [(''k'', '' v'')]"
    by (simp add: fun_eq_iff)
  ultimately show ?thesis
    by (simp add: buildTerraformWebhooks_body_def buildDatadogWebhook_def reproduced_def
        ParseBool_FormatBool)
qed

text \<open>
  C3, amended. For every list \<open>L\<close> of webhook configurations whose header mappings, where
  present, have keys and values free of colon and newline and values that do not begin
  with a space, translating \<open>L\<close> outbound through \<^verbatim>\<open>buildDatadogWebhook\<close> and then inbound
  through \<^verbatim>\<open>buildTerraformWebhooks\<close> succeeds and reproduces \<open>L\<close> field for field, in the
  same order.
\<close>

theorem webhooks_round_trip:
  assumes "\<forall>w \<in> set L. \<forall>hs. headers w = Some hs \<longrightarrow>
      distinct (map fst hs) \<and> colon_newline_free hs \<and> no_leading_space hs"
  shows "buildTerraformWebhooks (map buildDatadogWebhook L) = Inr (map reproduced L)"
  using assms
proof (induction L)
  case Nil
  then show ?case by simp
next
  case (Cons w L)
  then have "buildTerraformWebhooks_body (buildDatadogWebhook w) = Inr (reproduced w)"
    by (intro body_round_trip) simp
  moreover from Cons
  have "buildTerraformWebhooks (map buildDatadogWebhook L) = Inr (map reproduced L)"
    by simp
  ultimately show ?case by simp
qed

text \<open>A list of two webhooks: one with every optional field, one with none.\<close>

theorem webhooks_round_trip_witness:
  "colon_newline_free [(''k'', ''v w''), (''l'', [])]
   \<and> no_leading_space [(''k'', ''v w''), (''l'', [])]
   \<and> buildTerraformWebhooks (map buildDatadogWebhook
      [\<lparr> name = ''n'', url = ''u'', use_custom_payload = Some True, custom_payload = Some ''p'',
         encode_as_form = Some False, headers = Some [(''k'', ''v w''), (''l'', [])] \<rparr>,
       \<lparr> name = ''m'', url = ''u2'', use_custom_payload = None, custom_payload = None,
         encode_as_form = None, headers = None \<rparr>])
   = Inr
      [\<lparr> name = Some ''n'', url = Some ''u'', use_custom_payload = Some True,
         custom_payload = Some ''p'', encode_as_form = Some False,
         headers = Some (map_of [(''k'', ''v w''), (''l'', [])]) \<rparr>,
       \<lparr> name = Some ''m'', url = Some ''u2'', use_custom_payload = None, custom_payload = None,
         encode_as_form = None, headers = None \<rparr>]"
  using webhooks_round_trip [of
      "[\<lparr> name = ''n'', url = ''u'', use_custom_payload = Some True, custom_payload = Some ''p'',
         encode_as_form = Some False, headers = Some [(''k'', ''v w''), (''l'', [])] \<rparr>,
       \<lparr> name = ''m'', url = ''u2'', use_custom_payload = None, custom_payload = None,
         encode_as_form = None, headers = None \<rparr>]"]
  by (simp add: colon_newline_free_def no_leading_space_def reproduced_def)

subsection \<open>Building a wire record\<close>

text \<open>
  C7. For every webhook configuration, the wire record built by \<^verbatim>\<open>buildDatadogWebhook\<close>
  has the name and the url; each of the four optional fields is set exactly when the
  configuration has it; the two boolean fields are written as the strings \<^verbatim>\<open>true\<close> and
  \<^verbatim>\<open>false\<close>, the payload as it is, and the headers as \<^verbatim>\<open>buildDatadogHeader\<close> encodes them.
\<close>

theorem buildDatadogWebhook_fields:
  "Name (buildDatadogWebhook w) = Some (name w)
   \<and> URL (buildDatadogWebhook w) = Some (url w)
   \<and> UseCustomPayload (buildDatadogWebhook w)
       = map_option (\<lambda>b. if b then ''true'' else ''false'') (use_custom_payload w)
   \<and> CustomPayload (buildDatadogWebhook w) = custom_payload w
   \<and> EncodeAsForm (buildDatadogWebhook w)
       = map_option (\<lambda>b. if b then ''true'' else ''false'') (encode_as_form w)
   \<and> Headers (buildDatadogWebhook w) = map_option buildDatadogHeader (headers w)"
  by (simp add: buildDatadogWebhook_def strconv_FormatBool_def split: option.splits)

text \<open>A configuration with one boolean, a payload and headers, and without the other boolean.\<close>

theorem buildDatadogWebhook_fields_witness:
  "buildDatadogWebhook
     \<lparr> name = ''n'', url = ''https://example.org'', use_custom_payload = Some False,
       custom_payload = Some ''{}'', encode_as_form = None,
       headers = Some [(''A'', ''1''), (''B'', ''2'')] \<rparr>
   = \<lparr> Name = Some ''n'', URL = Some ''https://example.org'', UseCustomPayload = Some ''false'',
       CustomPayload = Some ''{}'', EncodeAsForm = None,
       Headers = Some (''A: 1'' @ [CHR 0x0A] @ ''B: 2'') \<rparr>"
  using buildDatadogWebhook_fields [of
      "\<lparr> name = ''n'', url = ''https://example.org'', use_custom_payload = Some False,
         custom_payload = Some ''{}'', encode_as_form = None,
         headers = Some [(''A'', ''1''), (''B'', ''2'')] \<rparr>"]
  by (simp add: buildDatadogWebhook_def buildDatadogHeader_def strconv_FormatBool_def)

subsection \<open>Exists\<close>



subsection \<open>Read\<close>

text \<open>
  A wire record fails to translate when one of its boolean fields does not parse or its
  header string does not decode.
\<close>

lemma body_fails:
  assumes "(\<exists>s. UseCustomPayload w = Some s \<and> isl (strconv_ParseBool s))
     \<or> (\<exists>s. EncodeAsForm w = Some s \<and> isl (strconv_ParseBool s))
     \<or> (\<exists>s. Headers w = Some s \<and> isl (buildTerraformHeader s))"
  shows "isl (buildTerraformWebhooks_body w)"
  using assms unfolding buildTerraformWebhooks_body_def
  by (auto simp: isl_def split: option.splits sum.splits)

lemma webhooks_fail:
  assumes "w \<in> set ws" and "isl (buildTerraformWebhooks_body w)"
  shows "isl (buildTerraformWebhooks ws)"
  using assms
proof (induction ws)
  case Nil
  then show ?case by simp
next
  case (Cons x xs)
  show ?case
  proof (cases "buildTerraformWebhooks_body x")
    case (Inl e)
    then show ?thesis by simp
  next
    case (Inr t)
    with Cons.prems have "w \<in> set xs" by auto
    with Cons have "isl (buildTerraformWebhooks xs)" by simp
    with Inr show ?thesis by (cases "buildTerraformWebhooks xs") auto
  qed
qed

text \<open>The error of the list is the error of one of its records.\<close>

lemma webhooks_error_origin:
  assumes "buildTerraformWebhooks ws = Inl err"
  shows "\<exists>w \<in> set ws. buildTerraformWebhooks_body w = Inl err"
  using assms
proof (induction ws)
  case Nil
  then show ?case by simp
next
  case (Cons x xs)
  then show ?case by (auto split: sum.splits)
qed

text \<open>
  C4. When the fetch succeeds and some wire record fails inbound translation (a boolean
  field that does not parse, or a header string that does not decode), the read
  returns the error of a failing record, and the resource data after the read is the
  data before it, whatever \<^verbatim>\<open>d.Set\<close> would do: nothing is written. The only call made is
  the fetch.
\<close>

theorem read_translation_failure:
  assumes get: "GetIntegrationWebhook client (remote r) = (Inr integration, c')"
    and w: "w \<in> set (Webhooks integration)"
    and bad: "(\<exists>s. UseCustomPayload w = Some s \<and> isl (strconv_ParseBool s))
     \<or> (\<exists>s. EncodeAsForm w = Some s \<and> isl (strconv_ParseBool s))
     \<or> (\<exists>s. Headers w = Some s \<and> isl (buildTerraformHeader s))"
  shows "\<exists>err. (\<exists>w' \<in> set (Webhooks integration). buildTerraformWebhooks_body w' = Inl err)
     \<and> resourceDatadogIntegrationWebhookRead client sdk d r
        = (Some err, d, \<lparr> remote = c', calls = calls r @ [GetCall] \<rparr>)"
proof -
  from bad have "isl (buildTerraformWebhooks_body w)" by (rule body_fails)
  with w have "isl (buildTerraformWebhooks (Webhooks integration))" by (rule webhooks_fail)
  then obtain err where err: "buildTerraformWebhooks (Webhooks integration) = Inl err"
    by (auto simp: isl_def)
  with get have "resourceDatadogIntegrationWebhookRead client sdk d r
        = (Some err, d, \<lparr> remote = c', calls = calls r @ [GetCall] \<rparr>)"
    by (simp add: resourceDatadogIntegrationWebhookRead_def client_get_def)
  with webhooks_error_origin [OF err] show ?thesis by blast
qed

text \<open>
  The remote side has two webhooks; the first translates, the header string of the
  second is \<^verbatim>\<open>X-Foo\<close>. The resource data is a counter that \<^verbatim>\<open>d.Set\<close> would increase:
  it stays at 0.
\<close>

theorem read_translation_failure_witness:
  "isl (buildTerraformHeader ''X-Foo'')
   \<and> resourceDatadogIntegrationWebhookRead
      \<lparr> GetIntegrationWebhook = (\<lambda>c. (Inr \<lparr> Webhooks =
          [\<lparr> Name = Some ''a'', URL = Some ''u'', UseCustomPayload = Some ''true'',
             CustomPayload = None, EncodeAsForm = None, Headers = Some ''K: v'' \<rparr>,
           \<lparr> Name = Some ''b'', URL = Some ''u'', UseCustomPayload = None,
             CustomPayload = None, EncodeAsForm = None, Headers = Some ''X-Foo'' \<rparr>] \<rparr>, c)),
        CreateIntegrationWebhook = (\<lambda>req c. (None, c)),
        DeleteIntegrationWebhook = (\<lambda>c. (None, c)) \<rparr>
      \<lparr> Get_hooks = (\<lambda>d. []), Set_hooks = (\<lambda>d v. (None, Suc d)) \<rparr>
      (0::nat)
      \<lparr> remote = (), calls = [] \<rparr>
    = (Some (Errorf (''header not correctly formatted, expected ':' in ''
                     @ [CHR 0x27] @ ''X-Foo'' @ [CHR 0x27])),
       0, \<lparr> remote = (), calls = [GetCall] \<rparr>)"
proof -
  let ?w = "\<lparr> Name = Some ''b'', URL = Some ''u'', UseCustomPayload = None,
             CustomPayload = None, EncodeAsForm = None, Headers = Some ''X-Foo'' \<rparr>"
  let ?i = "\<lparr> Webhooks =
          [\<lparr> Name = Some ''a'', URL = Some ''u'', UseCustomPayload = Some ''true'',
             CustomPayload = None, EncodeAsForm = None, Headers = Some ''K: v'' \<rparr>, ?w] \<rparr>"
  let ?client = "\<lparr> GetIntegrationWebhook = (\<lambda>c::unit. (Inr ?i, c)),
        CreateIntegrationWebhook = (\<lambda>req c. (None, c)),
        DeleteIntegrationWebhook = (\<lambda>c. (None, c)) \<rparr>"
  let ?sdk = "\<lparr> Get_hooks = (\<lambda>d::nat. []), Set_hooks = (\<lambda>d v. (None, Suc d)) \<rparr>"
  let ?r = "\<lparr> remote = (), calls = [] \<rparr>"
  have bad_header: "isl (buildTerraformHeader ''X-Foo'')"
    by (simp add: buildTerraformHeader_def strings_Trim_def strings_Contains_def)
  have get: "GetIntegrationWebhook ?client (remote ?r) = (Inr ?i, ())" by simp
  have w: "?w \<in> set (Webhooks ?i)" by simp
  have bad: "(\<exists>s. UseCustomPayload ?w = Some s \<and> isl (strconv_ParseBool s))
     \<or> (\<exists>s. EncodeAsForm ?w = Some s \<and> isl (strconv_ParseBool s))
     \<or> (\<exists>s. Headers ?w = Some s \<and> isl (buildTerraformHeader s))"
    using bad_header by simp
  from read_translation_failure [OF get w bad, of ?sdk 0]
  obtain err where
    "resourceDatadogIntegrationWebhookRead ?client ?sdk 0 ?r
      = (Some err, 0, \<lparr> remote = (), calls = calls ?r @ [GetCall] \<rparr>)"
    by blast
  moreover have "fst (resourceDatadogIntegrationWebhookRead ?client ?sdk 0 ?r)
      = Some (Errorf (''header not correctly formatted, expected ':' in ''
                     @ [CHR 0x27] @ ''X-Foo'' @ [CHR 0x27]))"
    by (simp add: resourceDatadogIntegrationWebhookRead_def client_get_def
        buildTerraformWebhooks_body_def strconv_ParseBool_def buildTerraformHeader_def
        strings_Trim_def strings_Contains_def strings_TrimLeft_def)
  ultimately show ?thesis using bad_header by simp
qed

subsection \<open>Create\<close>



end
